theory Spec2Isabelle
  imports Main "HOL-Library.Sublist"
begin

section \<open>JavaScript values and plain objects\<close>

text \<open>
  The records handled by \<^verbatim>\<open>UniversitySystem.js\<close> are flat JSON objects: every field
  holds a JSON scalar. Numbers are modelled by integers (only \<^verbatim>\<open>typeof\<close> and
  \<^verbatim>\<open>===\<close> are applied to them), strings by byte strings. These are the values that
  \<^verbatim>\<open>JSON.stringify\<close> and \<^verbatim>\<open>JSON.parse\<close> give back unchanged. A record that a caller
  passes with \<^verbatim>\<open>NaN\<close>, an infinite number or \<^verbatim>\<open>undefined\<close> in a field is written to the
  file as another record (with \<^verbatim>\<open>null\<close>, or without the field); such records are not
  values of the model, and a statement about the record read back is a statement about
  records of JSON scalars only.
\<close>

datatype jsval = JNull | JBool bool | JNum int | JStr string

fun typeof :: "jsval \<Rightarrow> string" where
  "typeof JNull = ''object''"
| "typeof (JBool b) = ''boolean''"
| "typeof (JNum n) = ''number''"
| "typeof (JStr s) = ''string''"

text \<open>
  A plain object is the list of its own properties in enumeration order. JavaScript
  enumerates the keys that are array indices first, in ascending numeric order, and
  the other keys after them in the order of their creation. An object has each of its
  keys once; \<open>map_of\<close> reads an own property.
\<close>

type_synonym 'a obj = "(string \<times> 'a) list"

definition is_digit :: "char \<Rightarrow> bool" where
  "is_digit c = (48 \<le> (of_char c :: nat) \<and> (of_char c :: nat) \<le> 57)"

definition decimal :: "string \<Rightarrow> int" where
  "decimal s = foldl (\<lambda>n c. 10 * n + ((of_char c :: int) - 48)) 0 s"

definition array_index :: "string \<Rightarrow> int option" where
  "array_index s =
     (if s \<noteq> [] \<and> list_all is_digit s \<and> (hd s \<noteq> CHR ''0'' \<or> length s = 1)
         \<and> decimal s < 4294967295
      then Some (decimal s) else None)"

fun obj_replace :: "string \<Rightarrow> 'a \<Rightarrow> 'a obj \<Rightarrow> 'a obj" where
  "obj_replace k v [] = []"
| "obj_replace k v ((k', v') # m) =
     (if k' = k then (k, v) # m else (k', v') # obj_replace k v m)"

fun obj_insert_index :: "int \<Rightarrow> string \<Rightarrow> 'a \<Rightarrow> 'a obj \<Rightarrow> 'a obj" where
  "obj_insert_index i k v [] = [(k, v)]"
| "obj_insert_index i k v ((k', v') # m) =
     (case array_index k' of
        Some j \<Rightarrow>
          if j < i then (k', v') # obj_insert_index i k v m else (k, v) # (k', v') # m
      | None \<Rightarrow> (k, v) # (k', v') # m)"

text \<open>Defining the own data property \<open>k\<close> of an object (as an object literal, a spread
  and \<^verbatim>\<open>JSON.parse\<close> do): an existing property keeps its place.\<close>

definition obj_set :: "'a obj \<Rightarrow> string \<Rightarrow> 'a \<Rightarrow> 'a obj" where
  "obj_set m k v =
     (if map_of m k \<noteq> None then obj_replace k v m
      else case array_index k of
             Some i \<Rightarrow> obj_insert_index i k v m
           | None \<Rightarrow> m @ [(k, v)])"

text \<open>\<^verbatim>\<open>delete o[k]\<close> removes the own property, if there is one.\<close>

definition obj_delete :: "'a obj \<Rightarrow> string \<Rightarrow> 'a obj" where
  "obj_delete m k = filter (\<lambda>p. fst p \<noteq> k) m"

text \<open>\<^verbatim>\<open>Object.values\<close>; \<^verbatim>\<open>Object.entries\<close> is the list itself.\<close>

definition obj_values :: "'a obj \<Rightarrow> 'a list" where
  "obj_values m = map snd m"

text \<open>
  Reading \<^verbatim>\<open>o[k]\<close> on a plain object follows the prototype chain: a key that is not
  an own property is still found when \<^verbatim>\<open>Object.prototype\<close> has it. What is found
  there is a function (for \<^verbatim>\<open>__proto__\<close>, the prototype object itself), hence truthy.
\<close>

datatype 'a lookup = Own 'a | Inherited | Absent

definition object_prototype_keys :: "string list" where
  "object_prototype_keys =
     [''constructor'', ''__defineGetter__'', ''__defineSetter__'', ''hasOwnProperty'',
      ''__lookupGetter__'', ''__lookupSetter__'', ''isPrototypeOf'',
      ''propertyIsEnumerable'', ''toString'', ''valueOf'', ''__proto__'',
      ''toLocaleString'']"

definition get_prop :: "'a obj \<Rightarrow> string \<Rightarrow> 'a lookup" where
  "get_prop m k =
     (case map_of m k of
        Some v \<Rightarrow> Own v
      | None \<Rightarrow> if k \<in> set object_prototype_keys then Inherited else Absent)"

text \<open>The assignment \<^verbatim>\<open>o[k] = v\<close>: for the key \<^verbatim>\<open>__proto__\<close> that is not an own
  property it runs the inherited setter, which creates no own property.\<close>

definition obj_assign :: "'a obj \<Rightarrow> string \<Rightarrow> 'a \<Rightarrow> 'a obj" where
  "obj_assign m k v =
     (if k = ''__proto__'' \<and> map_of m k = None then m else obj_set m k v)"

text \<open>The object literal \<^verbatim>\<open>{ ...a, ...b }\<close>.\<close>

definition spread :: "'a obj \<Rightarrow> 'a obj \<Rightarrow> 'a obj" where
  "spread a b = foldl (\<lambda>m (k, v). obj_set m k v) [] (a @ b)"

text \<open>The operator \<^verbatim>\<open>k in o\<close> and \<^verbatim>\<open>typeof o[k]\<close>.\<close>

definition in_op :: "string \<Rightarrow> jsval obj \<Rightarrow> bool" where
  "in_op k data = (get_prop data k \<noteq> Absent)"

definition typeof_member :: "jsval obj \<Rightarrow> string \<Rightarrow> string" where
  "typeof_member data k =
     (case get_prop data k of
        Own v \<Rightarrow> typeof v
      | Inherited \<Rightarrow> if k = ''__proto__'' then ''object'' else ''function''
      | Absent \<Rightarrow> ''undefined'')"

subsection \<open>Strings\<close>

text \<open>\<^verbatim>\<open>toLowerCase\<close> on ASCII text (the letters \<open>A\<close> to \<open>Z\<close> are mapped, every other
  character is kept), and \<^verbatim>\<open>hay.includes(needle)\<close>. JavaScript also maps the capital
  letters outside ASCII; \<open>toLowerCase\<close> is the function of the code on the strings that
  \<open>is_ascii\<close> holds of, and a general statement about matching is made for those.\<close>

definition lower_char :: "char \<Rightarrow> char" where
  "lower_char c =
     (if 65 \<le> (of_char c :: nat) \<and> (of_char c :: nat) \<le> 90
      then char_of ((of_char c :: nat) + 32) else c)"

definition toLowerCase :: "string \<Rightarrow> string" where
  "toLowerCase s = map lower_char s"

fun str_includes :: "string \<Rightarrow> string \<Rightarrow> bool" where
  "str_includes [] needle = (needle = [])"
| "str_includes (c # cs) needle = (prefix needle (c # cs) \<or> str_includes cs needle)"


section \<open>Validation\<close>

record schema =
  required :: "string list"
  types :: "string obj"

definition schemas :: "schema obj" where
  "schemas =
     [(''student'',
        \<lparr>required = [''id'', ''name'', ''email'', ''enrollmentYear'', ''major''],
         types = [(''id'', ''string''), (''name'', ''string''), (''email'', ''string''),
                  (''enrollmentYear'', ''number''), (''course'', ''string'')]\<rparr>),
      (''professor'',
        \<lparr>required = [''id'', ''name'', ''email'', ''department'', ''specialization''],
         types = [(''id'', ''string''), (''name'', ''string''), (''email'', ''string''),
                  (''department'', ''string''), (''specialization'', ''string'')]\<rparr>),
      (''department'',
        \<lparr>required = [''id'', ''name'', ''building'', ''budget''],
         types = [(''id'', ''string''), (''name'', ''string''), (''building'', ''string''),
                  (''budget'', ''number'')]\<rparr>)]"

text \<open>The two loops of \<^verbatim>\<open>#validateData\<close>; each throws at the first offending field.\<close>

fun check_required :: "string list \<Rightarrow> jsval obj \<Rightarrow> string + unit" where
  "check_required [] data = Inr ()"
| "check_required (field # rest) data =
     (if \<not> in_op field data then Inl (''Missing required field: '' @ field)
      else check_required rest data)"

fun check_types :: "string obj \<Rightarrow> jsval obj \<Rightarrow> string + unit" where
  "check_types [] data = Inr ()"
| "check_types ((field, expectedType) # rest) data =
     (if in_op field data \<and> typeof_member data field \<noteq> expectedType
      then Inl (''Invalid type for '' @ field @ '': expected '' @ expectedType)
      else check_types rest data)"

text \<open>The message of the engine's TypeError when \<^verbatim>\<open>schema.required\<close> is undefined
  (the type names a property of \<^verbatim>\<open>Object.prototype\<close>).\<close>

definition not_iterable_message :: string where
  "not_iterable_message = ''schema.required is not iterable''"

definition validateData :: "jsval obj \<Rightarrow> string \<Rightarrow> string + bool" where
  "validateData data type =
     (case get_prop schemas type of
        Absent \<Rightarrow> Inl (''Invalid type: '' @ type)
      | Inherited \<Rightarrow> Inl not_iterable_message
      | Own schema \<Rightarrow>
          (case check_required (required schema) data of
             Inl e \<Rightarrow> Inl e
           | Inr _ \<Rightarrow>
               (case check_types (types schema) data of
                  Inl e \<Rightarrow> Inl e
                | Inr _ \<Rightarrow> Inr True)))"

section \<open>The persisted document and the file system\<close>

record document =
  departments :: "jsval obj obj"
  professors :: "jsval obj obj"
  students :: "jsval obj obj"

text \<open>
  \<^verbatim>\<open>universityData[`${type}s`]\<close>: the document has three own properties; any other
  key ending in \<^verbatim>\<open>s\<close> is undefined (no property of \<^verbatim>\<open>Object.prototype\<close> ends in
  \<^verbatim>\<open>s\<close>), which is \<open>None\<close> here.
\<close>

definition doc_member :: "document \<Rightarrow> string \<Rightarrow> jsval obj obj option" where
  "doc_member d k =
     (if k = ''departments'' then Some (departments d)
      else if k = ''professors'' then Some (professors d)
      else if k = ''students'' then Some (students d)
      else None)"

definition doc_update :: "document \<Rightarrow> string \<Rightarrow> jsval obj obj \<Rightarrow> document" where
  "doc_update d k c =
     (if k = ''departments'' then d\<lparr>departments := c\<rparr>
      else if k = ''professors'' then d\<lparr>professors := c\<rparr>
      else if k = ''students'' then d\<lparr>students := c\<rparr>
      else d)"

text \<open>
  The storage the module works on. \<open>primary\<close> is the primary file: its parsed content,
  or the message of the error that \<^verbatim>\<open>fs.readFile\<close> or \<^verbatim>\<open>JSON.parse\<close> raises on it.
  \<open>write_fault\<close> and \<open>backup_fault\<close> are the messages of the errors that writing the
  primary file and writing into the backup directory raise, if they do (a missing
  backup directory for the second). \<open>backups\<close> are the files of the backup directory,
  by name. A write that fails leaves the file as it was. Writing the document and
  reading it back goes through \<^verbatim>\<open>JSON.stringify\<close> and \<^verbatim>\<open>JSON.parse\<close>, which give
  back the same object for the JSON values modelled here.
\<close>

record storage =
  primary :: "string + document"
  write_fault :: "string option"
  backup_fault :: "string option"
  backups :: "(string \<times> document) list"

definition readFile :: "storage \<Rightarrow> string + document" where
  "readFile st =
     (case primary st of
        Inl msg \<Rightarrow> Inl (''Failed to read data: '' @ msg)
      | Inr data \<Rightarrow> Inr data)"

definition writeFile :: "storage \<Rightarrow> document \<Rightarrow> storage \<times> (string + unit)" where
  "writeFile st data =
     (case write_fault st of
        Some msg \<Rightarrow> (st, Inl (''Failed to write data: '' @ msg))
      | None \<Rightarrow> (st\<lparr>primary := Inr data\<rparr>, Inr ()))"

text \<open>\<^verbatim>\<open>fs.writeFile\<close> on a file of the backup directory: an existing file of that name
  is overwritten.\<close>

fun put_file :: "(string \<times> document) list \<Rightarrow> string \<Rightarrow> document \<Rightarrow> (string \<times> document) list" where
  "put_file [] name data = [(name, data)]"
| "put_file ((n, d) # files) name data =
     (if n = name then (n, data) # files else (n, d) # put_file files name data)"

text \<open>The name of the backup file, from the clock's ISO timestamp \<open>now\<close>.\<close>

definition backup_name :: "string \<Rightarrow> string" where
  "backup_name now =
     ''backup_'' @ map (\<lambda>c. if c = CHR '':'' \<or> c = CHR ''.'' then CHR ''-'' else c) now
       @ ''.json''"

definition createBackup :: "storage \<Rightarrow> string \<Rightarrow> storage \<times> (string + unit)" where
  "createBackup st now =
     (case readFile st of
        Inl e \<Rightarrow> (st, Inl e)
      | Inr data \<Rightarrow>
          (case backup_fault st of
             Some msg \<Rightarrow> (st, Inl msg)
           | None \<Rightarrow> (st\<lparr>backups := put_file (backups st) (backup_name now) data\<rparr>, Inr ())))"

section \<open>The operations\<close>

text \<open>Messages of the engine's TypeErrors: reading a property of undefined, passing
  undefined to \<^verbatim>\<open>Object.values\<close>, and calling the undefined \<^verbatim>\<open>toLowerCase\<close> of a
  value that is not a string.\<close>

definition undefined_read_message :: "string \<Rightarrow> string" where
  "undefined_read_message k =
     ''Cannot read properties of undefined (reading '' @ [CHR 0x27] @ k @ [CHR 0x27] @ '')''"

definition undefined_values_message :: string where
  "undefined_values_message = ''Cannot convert undefined or null to object''"

definition not_a_function_message :: string where
  "not_a_function_message = ''item[key]?.toLowerCase is not a function''"

text \<open>\<^verbatim>\<open>data.id\<close>, read after \<^verbatim>\<open>#validateData\<close> has returned: it is an own property
  then, and a string (lemma \<open>validateData_id\<close> below).\<close>

definition data_id :: "jsval obj \<Rightarrow> string" where
  "data_id data = (case map_of data ''id'' of Some (JStr s) \<Rightarrow> s | _ \<Rightarrow> [])"

definition add_body :: "storage \<Rightarrow> string \<Rightarrow> string \<Rightarrow> jsval obj \<Rightarrow> storage \<times> (string + jsval obj)" where
  "add_body st now type data =
     (case validateData data type of
        Inl e \<Rightarrow> (st, Inl e)
      | Inr _ \<Rightarrow>
     (case createBackup st now of
        (st1, Inl e) \<Rightarrow> (st1, Inl e)
      | (st1, Inr _) \<Rightarrow>
     (case readFile st1 of
        Inl e \<Rightarrow> (st1, Inl e)
      | Inr universityData \<Rightarrow>
     (case doc_member universityData (type @ ''s'') of
        None \<Rightarrow> (st1, Inl (undefined_read_message (data_id data)))
      | Some coll \<Rightarrow>
          if get_prop coll (data_id data) \<noteq> Absent
          then (st1, Inl (type @ '' with ID '' @ data_id data @ '' already exists''))
          else
            (case writeFile st1
                    (doc_update universityData (type @ ''s'')
                       (obj_assign coll (data_id data) data)) of
               (st2, Inl e) \<Rightarrow> (st2, Inl e)
             | (st2, Inr _) \<Rightarrow> (st2, Inr data))))))"

definition add :: "storage \<Rightarrow> string \<Rightarrow> string \<Rightarrow> jsval obj \<Rightarrow> storage \<times> (string + jsval obj)" where
  "add st now type data =
     (case add_body st now type data of
        (st', Inl e) \<Rightarrow> (st', Inl (''Failed to add '' @ type @ '': '' @ e))
      | (st', Inr r) \<Rightarrow> (st', Inr r))"

definition update_body :: "storage \<Rightarrow> string \<Rightarrow> string \<Rightarrow> string \<Rightarrow> jsval obj \<Rightarrow> storage \<times> (string + jsval obj)" where
  "update_body st now type ident updates =
     (case readFile st of
        Inl e \<Rightarrow> (st, Inl e)
      | Inr universityData \<Rightarrow>
     (case doc_member universityData (type @ ''s'') of
        None \<Rightarrow> (st, Inl (undefined_read_message ident))
      | Some coll \<Rightarrow>
          if get_prop coll ident = Absent
          then (st, Inl (type @ '' with ID '' @ ident @ '' not found''))
          else
            let existing = (case get_prop coll ident of Own r \<Rightarrow> r | _ \<Rightarrow> []);
                updated = spread existing updates
            in
            (case validateData updated type of
               Inl e \<Rightarrow> (st, Inl e)
             | Inr _ \<Rightarrow>
            (case createBackup st now of
               (st1, Inl e) \<Rightarrow> (st1, Inl e)
             | (st1, Inr _) \<Rightarrow>
            (case writeFile st1
                    (doc_update universityData (type @ ''s'') (obj_assign coll ident updated)) of
               (st2, Inl e) \<Rightarrow> (st2, Inl e)
             | (st2, Inr _) \<Rightarrow> (st2, Inr updated))))))"

definition update :: "storage \<Rightarrow> string \<Rightarrow> string \<Rightarrow> string \<Rightarrow> jsval obj \<Rightarrow> storage \<times> (string + jsval obj)" where
  "update st now type ident updates =
     (case update_body st now type ident updates of
        (st', Inl e) \<Rightarrow> (st', Inl (''Failed to update '' @ type @ '': '' @ e))
      | (st', Inr r) \<Rightarrow> (st', Inr r))"

text \<open>\<^verbatim>\<open>x === v\<close> for a property read \<open>x\<close> and a JSON scalar \<open>v\<close>: undefined and an
  inherited function are equal to no scalar.\<close>

definition strict_eq :: "jsval lookup \<Rightarrow> jsval \<Rightarrow> bool" where
  "strict_eq x v = (x = Own v)"

definition hasProfessors :: "document \<Rightarrow> string \<Rightarrow> bool" where
  "hasProfessors universityData ident =
     list_ex (\<lambda>prof. strict_eq (get_prop prof ''department'') (JStr ident))
       (obj_values (professors universityData))"

definition delete_body :: "storage \<Rightarrow> string \<Rightarrow> string \<Rightarrow> string \<Rightarrow> storage \<times> (string + bool)" where
  "delete_body st now type ident =
     (case readFile st of
        Inl e \<Rightarrow> (st, Inl e)
      | Inr universityData \<Rightarrow>
     (case doc_member universityData (type @ ''s'') of
        None \<Rightarrow> (st, Inl (undefined_read_message ident))
      | Some coll \<Rightarrow>
          if get_prop coll ident = Absent
          then (st, Inl (type @ '' with ID '' @ ident @ '' not found''))
          else if type = ''department'' \<and> hasProfessors universityData ident
          then (st, Inl ''Cannot delete department with assigned professors'')
          else
            (case createBackup st now of
               (st1, Inl e) \<Rightarrow> (st1, Inl e)
             | (st1, Inr _) \<Rightarrow>
            (case writeFile st1
                    (doc_update universityData (type @ ''s'') (obj_delete coll ident)) of
               (st2, Inl e) \<Rightarrow> (st2, Inl e)
             | (st2, Inr _) \<Rightarrow> (st2, Inr True)))))"

definition delete :: "storage \<Rightarrow> string \<Rightarrow> string \<Rightarrow> string \<Rightarrow> storage \<times> (string + bool)" where
  "delete st now type ident =
     (case delete_body st now type ident of
        (st', Inl e) \<Rightarrow> (st', Inl (''Failed to delete '' @ type @ '': '' @ e))
      | (st', Inr r) \<Rightarrow> (st', Inr r))"

text \<open>
  The callback of \<^verbatim>\<open>every\<close> in \<^verbatim>\<open>search\<close>, over \<^verbatim>\<open>Object.entries(criteria)\<close>. For a
  string \<open>value\<close>, \<^verbatim>\<open>item[key]?.toLowerCase()\<close> is undefined when \<^verbatim>\<open>item[key]\<close> is
  undefined or null, and a TypeError when it is anything else that is not a string.
\<close>

fun every_criterion :: "jsval obj \<Rightarrow> jsval obj \<Rightarrow> string + bool" where
  "every_criterion [] item = Inr True"
| "every_criterion ((key, value) # rest) item =
     (case value of
        JStr s \<Rightarrow>
          (case get_prop item key of
             Own (JStr t) \<Rightarrow>
               if str_includes (toLowerCase t) (toLowerCase s)
               then every_criterion rest item else Inr False
           | Own JNull \<Rightarrow> Inr False
           | Absent \<Rightarrow> Inr False
           | _ \<Rightarrow> Inl not_a_function_message)
      | _ \<Rightarrow>
          if strict_eq (get_prop item key) value
          then every_criterion rest item else Inr False)"

fun filter_items :: "jsval obj list \<Rightarrow> jsval obj \<Rightarrow> string + jsval obj list" where
  "filter_items [] criteria = Inr []"
| "filter_items (item # items) criteria =
     (case every_criterion criteria item of
        Inl e \<Rightarrow> Inl e
      | Inr b \<Rightarrow>
          (case filter_items items criteria of
             Inl e \<Rightarrow> Inl e
           | Inr found \<Rightarrow> Inr (if b then item # found else found)))"

definition search_body :: "storage \<Rightarrow> string \<Rightarrow> jsval obj \<Rightarrow> string + jsval obj list" where
  "search_body st type criteria =
     (case readFile st of
        Inl e \<Rightarrow> Inl e
      | Inr universityData \<Rightarrow>
     (case doc_member universityData (type @ ''s'') of
        None \<Rightarrow> Inl undefined_values_message
      | Some coll \<Rightarrow> filter_items (obj_values coll) criteria))"

definition search :: "storage \<Rightarrow> string \<Rightarrow> jsval obj \<Rightarrow> string + jsval obj list" where
  "search st type criteria =
     (case search_body st type criteria of
        Inl e \<Rightarrow> Inl (''Search failed: '' @ e)
      | Inr found \<Rightarrow> Inr found)"

section \<open>Sequences of calls\<close>

text \<open>A call of one of the four public operations. \<open>perform\<close> runs it at the clock
  reading \<open>now\<close> and tells whether it returned (rather than raised); \<open>run\<close> performs a
  sequence of calls, each with its clock reading, one after the other.\<close>

datatype call =
    Add string "jsval obj"
  | Update string string "jsval obj"
  | Delete string string
  | Search string "jsval obj"

fun mutating :: "call \<Rightarrow> bool" where
  "mutating (Search type criteria) = False"
| "mutating c = True"

fun perform :: "storage \<Rightarrow> string \<Rightarrow> call \<Rightarrow> storage \<times> bool" where
  "perform st now (Add type data) =
     (case add st now type data of (st', r) \<Rightarrow> (st', \<not> isl r))"
| "perform st now (Update type ident updates) =
     (case update st now type ident updates of (st', r) \<Rightarrow> (st', \<not> isl r))"
| "perform st now (Delete type ident) =
     (case delete st now type ident of (st', r) \<Rightarrow> (st', \<not> isl r))"
| "perform st now (Search type criteria) = (st, \<not> isl (search st type criteria))"

fun run :: "storage \<Rightarrow> (string \<times> call) list \<Rightarrow> storage \<times> bool list" where
  "run st [] = (st, [])"
| "run st ((now, c) # calls) =
     (case perform st now c of
        (st1, ok) \<Rightarrow> (case run st1 calls of (st2, oks) \<Rightarrow> (st2, ok # oks)))"

text \<open>An \<^verbatim>\<open>add\<close> that raised although its record passes validation; and the calls after
  which a backup file has been written: the mutating calls that returned, and those.\<close>

fun rejected_valid_add :: "call \<Rightarrow> bool \<Rightarrow> bool" where
  "rejected_valid_add (Add type data) ok = (\<not> ok \<and> validateData data type = Inr True)"
| "rejected_valid_add c ok = False"

definition backed_up :: "call \<Rightarrow> bool \<Rightarrow> bool" where
  "backed_up c ok = ((mutating c \<and> ok) \<or> rejected_valid_add c ok)"

section \<open>Sample data\<close>

text \<open>The department and the professor of the README, and a store that holds both.\<close>

definition cs101 :: "jsval obj" where
  "cs101 = [(''id'', JStr ''cs101''), (''name'', JStr ''Computer Science''),
            (''building'', JStr ''Tech Park''), (''budget'', JNum 1000000)]"

definition prof123 :: "jsval obj" where
  "prof123 = [(''id'', JStr ''prof123''), (''name'', JStr ''Dr. JJ Jayakanth''),
              (''email'', JStr ''jayakanth@srmist.edu.in''), (''department'', JStr ''cs101''),
              (''specialization'', JStr ''AI'')]"

definition sample_document :: document where
  "sample_document =
     \<lparr>departments = [(''cs101'', cs101)], professors = [(''prof123'', prof123)],
      students = []\<rparr>"

definition sample_store :: storage where
  "sample_store =
     \<lparr>primary = Inr sample_document, write_fault = None, backup_fault = None, backups = []\<rparr>"

definition ee202 :: "jsval obj" where
  "ee202 = [(''id'', JStr ''ee202''), (''name'', JStr ''Electrical Engineering''),
            (''building'', JStr ''Main Block''), (''budget'', JNum 500000)]"

text \<open>Five calls on the sample store: the second meets a duplicate id, the third an
  unknown one.\<close>

definition sample_calls :: "(string \<times> call) list" where
  "sample_calls =
     [(''2024-05-01T10:00:00.000Z'', Add ''department'' ee202),
      (''2024-05-01T10:00:01.000Z'', Add ''department'' cs101),
      (''2024-05-01T10:00:02.000Z'', Update ''department'' ''me303'' [(''budget'', JNum 1)]),
      (''2024-05-01T10:00:03.000Z'', Search ''professor'' [(''department'', JStr ''cs101'')]),
      (''2024-05-01T10:00:04.000Z'', Delete ''professor'' ''prof123'')]"

text \<open>Two students that \<^verbatim>\<open>#validateData\<close> accepts; the \<open>major\<close> of the second is a
  number. And a store that holds both.\<close>

definition std101 :: "jsval obj" where
  "std101 = [(''id'', JStr ''std101''), (''name'', JStr ''John Doe''),
             (''email'', JStr ''john@srmist.edu.in''), (''enrollmentYear'', JNum 2024),
             (''major'', JStr ''Computer Science'')]"

definition std102 :: "jsval obj" where
  "std102 = [(''id'', JStr ''std102''), (''name'', JStr ''Jane Roe''),
             (''email'', JStr ''jane@srmist.edu.in''), (''enrollmentYear'', JNum 2024),
             (''major'', JNum 42)]"

definition student_store :: storage where
  "student_store =
     \<lparr>primary = Inr \<lparr>departments = [], professors = [],
                      students = [(''std101'', std101), (''std102'', std102)]\<rparr>,
      write_fault = None, backup_fault = None, backups = []\<rparr>"

section \<open>The properties that the specification states\<close>

text \<open>
  The matching rule of the specification, in its words: a record matches the criteria
  when, for every pair of a field and a value, the record's field contains the value as a
  substring without regard to case if the value is textual (a record without the field
  does not match), and is equal to the value otherwise.
\<close>

definition spec_criterion :: "jsval obj \<Rightarrow> string \<times> jsval \<Rightarrow> bool" where
  "spec_criterion item c =
     (case snd c of
        JStr s \<Rightarrow>
          (case map_of item (fst c) of
             Some (JStr t) \<Rightarrow> str_includes (toLowerCase t) (toLowerCase s)
           | _ \<Rightarrow> False)
      | v \<Rightarrow> map_of item (fst c) = Some v)"

definition spec_matches :: "jsval obj \<Rightarrow> jsval obj \<Rightarrow> bool" where
  "spec_matches item criteria = list_all (spec_criterion item) criteria"


text \<open>The invariant that every stored record has, as its \<open>id\<close>, the key that it is
  stored under.\<close>

definition keyed_by_id :: "jsval obj obj \<Rightarrow> bool" where
  "keyed_by_id coll = list_all (\<lambda>p. map_of (snd p) ''id'' = Some (JStr (fst p))) coll"

definition ids_are_keys :: "document \<Rightarrow> bool" where
  "ids_are_keys d \<longleftrightarrow>
     keyed_by_id (departments d) \<and> keyed_by_id (professors d) \<and> keyed_by_id (students d)"

section \<open>Properties of objects\<close>

lemma map_of_obj_replace:
  "map_of m k \<noteq> None \<Longrightarrow> map_of (obj_replace k v m) = (map_of m)(k \<mapsto> v)"
  by (induction m) (auto simp: fun_eq_iff)

lemma map_of_obj_insert_index_apply:
  "map_of m k = None \<Longrightarrow>
   map_of (obj_insert_index i k v m) x = (if x = k then Some v else map_of m x)"
  by (induction m) (auto split: option.splits if_splits)

lemma map_of_obj_insert_index:
  "map_of m k = None \<Longrightarrow> map_of (obj_insert_index i k v m) = (map_of m)(k \<mapsto> v)"
  by (simp add: fun_eq_iff map_of_obj_insert_index_apply)

lemma map_of_obj_set: "map_of (obj_set m k v) = (map_of m)(k \<mapsto> v)"
proof (cases "map_of m k")
  case None
  then have "map_of (m @ [(k, v)]) = (map_of m)(k \<mapsto> v)"
    by (auto simp: fun_eq_iff map_add_def split: option.splits)
  with None show ?thesis
    by (simp add: obj_set_def map_of_obj_insert_index split: option.splits)
next
  case (Some a)
  then show ?thesis by (simp add: obj_set_def map_of_obj_replace)
qed

lemma get_prop_obj_set:
  "get_prop (obj_set m k v) k' = (if k' = k then Own v else get_prop m k')"
  by (simp add: get_prop_def map_of_obj_set)

lemma in_op_obj_set:
  "map_of data f \<noteq> None \<Longrightarrow> in_op g (obj_set data f v) = in_op g data"
  by (auto simp: in_op_def get_prop_def map_of_obj_set split: option.splits)

lemma typeof_member_obj_set:
  "g \<noteq> f \<Longrightarrow> typeof_member (obj_set data f v) g = typeof_member data g"
  by (simp add: typeof_member_def get_prop_obj_set)

lemma check_required_find:
  "check_required fs data =
     (case find (\<lambda>f. \<not> in_op f data) fs of
        Some f \<Rightarrow> Inl (''Missing required field: '' @ f)
      | None \<Rightarrow> Inr ())"
  by (induction fs) auto

lemma check_types_find:
  "check_types ts data =
     (case find (\<lambda>(f, t). in_op f data \<and> typeof_member data f \<noteq> t) ts of
        Some (f, t) \<Rightarrow> Inl (''Invalid type for '' @ f @ '': expected '' @ t)
      | None \<Rightarrow> Inr ())"
  by (induction ts data rule: check_types.induct) auto

lemma check_required_obj_set:
  "map_of data f \<noteq> None \<Longrightarrow> check_required fs (obj_set data f v) = check_required fs data"
  by (induction fs) (simp_all add: in_op_obj_set)

lemma check_types_obj_set:
  "map_of data f \<noteq> None \<Longrightarrow> f \<notin> fst ` set ts \<Longrightarrow>
   check_types ts (obj_set data f v) = check_types ts data"
  by (induction ts) (auto simp: in_op_obj_set typeof_member_obj_set)

lemma validateData_find:
  assumes "map_of schemas type = Some schema"
  shows "validateData data type =
           (case find (\<lambda>f. \<not> in_op f data) (required schema) of
              Some f \<Rightarrow> Inl (''Missing required field: '' @ f)
            | None \<Rightarrow>
                (case find (\<lambda>(f, t). in_op f data \<and> typeof_member data f \<noteq> t) (types schema) of
                   Some (f, t) \<Rightarrow> Inl (''Invalid type for '' @ f @ '': expected '' @ t)
                 | None \<Rightarrow> Inr True))"
proof -
  have own: "get_prop schemas type = Own schema"
    using assms by (simp add: get_prop_def)
  show ?thesis
    by (simp add: validateData_def own check_required_find check_types_find
          split: option.splits prod.splits)
qed

lemma validateData_obj_set:
  assumes "map_of schemas type = Some schema"
    and "map_of data f \<noteq> None" and "f \<notin> fst ` set (types schema)"
  shows "validateData (obj_set data f v) type = validateData data type"
proof -
  have own: "get_prop schemas type = Own schema"
    using assms(1) by (simp add: get_prop_def)
  show ?thesis
    by (simp add: validateData_def own check_required_obj_set [OF assms(2)]
          check_types_obj_set [OF assms(2,3)] cong: sum.case_cong)
qed

section \<open>Validation: order of the checks\<close>

text \<open>
  Claim C4. For a record and a kind with a schema, \<^verbatim>\<open>#validateData\<close> stops at the first
  violation: it reports the first required field (in the schema's order) that the record
  lacks, whatever the types of the fields are; only when no required field is missing
  does it report the first typed field (in the order of the type map) that is present
  with a value of another type; otherwise it returns true. A field that the record has
  and the type map does not list is not type-checked: giving it any other value leaves
  the outcome of the validation as it is.
\<close>

theorem validateData_short_circuit:
  assumes "map_of schemas type = Some schema"
  shows "validateData data type =
           (case find (\<lambda>f. \<not> in_op f data) (required schema) of
              Some f \<Rightarrow> Inl (''Missing required field: '' @ f)
            | None \<Rightarrow>
                (case find (\<lambda>(f, t). in_op f data \<and> typeof_member data f \<noteq> t) (types schema) of
                   Some (f, t) \<Rightarrow> Inl (''Invalid type for '' @ f @ '': expected '' @ t)
                 | None \<Rightarrow> Inr True))
         \<and> (map_of data f \<noteq> None \<and> f \<notin> fst ` set (types schema) \<longrightarrow>
              validateData (obj_set data f v) type = validateData data type)"
  using validateData_find [OF assms, of data] validateData_obj_set [OF assms, of data f v]
  by blast

theorem validateData_short_circuit_witness:
  "map_of schemas ''department'' =
     Some \<lparr>required = [''id'', ''name'', ''building'', ''budget''],
           types = [(''id'', ''string''), (''name'', ''string''), (''building'', ''string''),
                    (''budget'', ''number'')]\<rparr>
   \<and> validateData
        [(''id'', JStr ''cs101''), (''name'', JNum 3), (''budget'', JStr ''x''),
         (''notes'', JStr ''n'')] ''department''
       = Inl ''Missing required field: building''
   \<and> validateData
        (obj_set [(''id'', JStr ''cs101''), (''name'', JNum 3), (''budget'', JStr ''x''),
                  (''notes'', JStr ''n'')] ''notes'' (JNum 7)) ''department''
       = validateData
           [(''id'', JStr ''cs101''), (''name'', JNum 3), (''budget'', JStr ''x''),
            (''notes'', JStr ''n'')] ''department''"
  using validateData_short_circuit
          [of "''department''"
              "\<lparr>required = [''id'', ''name'', ''building'', ''budget''],
                types = [(''id'', ''string''), (''name'', ''string''),
                         (''building'', ''string''), (''budget'', ''number'')]\<rparr>"
              "[(''id'', JStr ''cs101''), (''name'', JNum 3), (''budget'', JStr ''x''),
                (''notes'', JStr ''n'')]"
              "''notes''" "JNum 7"]
  by (simp add: schemas_def in_op_def get_prop_def object_prototype_keys_def)

section \<open>Validation: the three schemas\<close>

lemma typeof_string: "typeof v = ''string'' \<longleftrightarrow> (\<exists>s. v = JStr s)"
  by (cases v) auto

lemma typeof_number: "typeof v = ''number'' \<longleftrightarrow> (\<exists>n. v = JNum n)"
  by (cases v) auto

lemma get_prop_schemas_student:
  "get_prop schemas ''student'' =
     Own \<lparr>required = [''id'', ''name'', ''email'', ''enrollmentYear'', ''major''],
          types = [(''id'', ''string''), (''name'', ''string''), (''email'', ''string''),
                   (''enrollmentYear'', ''number''), (''course'', ''string'')]\<rparr>"
  by (simp add: get_prop_def schemas_def)

lemma get_prop_schemas_professor:
  "get_prop schemas ''professor'' =
     Own \<lparr>required = [''id'', ''name'', ''email'', ''department'', ''specialization''],
          types = [(''id'', ''string''), (''name'', ''string''), (''email'', ''string''),
                   (''department'', ''string''), (''specialization'', ''string'')]\<rparr>"
  by (simp add: get_prop_def schemas_def)

lemma get_prop_schemas_department:
  "get_prop schemas ''department'' =
     Own \<lparr>required = [''id'', ''name'', ''building'', ''budget''],
          types = [(''id'', ''string''), (''name'', ''string''), (''building'', ''string''),
                   (''budget'', ''number'')]\<rparr>"
  by (simp add: get_prop_def schemas_def)

text \<open>For a key that \<^verbatim>\<open>Object.prototype\<close> does not have (every field name of the
  schemas is one), \<^verbatim>\<open>in\<close> tests for an own property.\<close>

lemma in_op_own:
  "k \<notin> set object_prototype_keys \<Longrightarrow> in_op k data \<longleftrightarrow> map_of data k \<noteq> None"
  by (simp add: in_op_def get_prop_def split: option.splits)

lemma typeof_member_own: "map_of data k = Some v \<Longrightarrow> typeof_member data k = typeof v"
  by (simp add: typeof_member_def get_prop_def)

lemma student_valid_iff:
  "validateData data ''student'' = Inr True \<longleftrightarrow>
     (\<exists>s. map_of data ''id'' = Some (JStr s)) \<and>
     (\<exists>s. map_of data ''name'' = Some (JStr s)) \<and>
     (\<exists>s. map_of data ''email'' = Some (JStr s)) \<and>
     (\<exists>n. map_of data ''enrollmentYear'' = Some (JNum n)) \<and>
     map_of data ''major'' \<noteq> None \<and>
     (case map_of data ''course'' of None \<Rightarrow> True | Some v \<Rightarrow> (\<exists>s. v = JStr s))"
  by (auto simp: validateData_def get_prop_schemas_student in_op_own
        object_prototype_keys_def typeof_member_own typeof_string typeof_number
        split: sum.splits option.splits if_splits)

lemma professor_valid_iff:
  "validateData data ''professor'' = Inr True \<longleftrightarrow>
     (\<exists>s. map_of data ''id'' = Some (JStr s)) \<and>
     (\<exists>s. map_of data ''name'' = Some (JStr s)) \<and>
     (\<exists>s. map_of data ''email'' = Some (JStr s)) \<and>
     (\<exists>s. map_of data ''department'' = Some (JStr s)) \<and>
     (\<exists>s. map_of data ''specialization'' = Some (JStr s))"
  by (auto simp: validateData_def get_prop_schemas_professor in_op_own
        object_prototype_keys_def typeof_member_own typeof_string
        split: sum.splits option.splits if_splits)

lemma department_valid_iff:
  "validateData data ''department'' = Inr True \<longleftrightarrow>
     (\<exists>s. map_of data ''id'' = Some (JStr s)) \<and>
     (\<exists>s. map_of data ''name'' = Some (JStr s)) \<and>
     (\<exists>s. map_of data ''building'' = Some (JStr s)) \<and>
     (\<exists>n. map_of data ''budget'' = Some (JNum n))"
  by (auto simp: validateData_def get_prop_schemas_department in_op_own
        object_prototype_keys_def typeof_member_own typeof_string typeof_number
        split: sum.splits option.splits if_splits)

text \<open>Only the three kinds have a schema.\<close>

lemma validateData_kind:
  "validateData data type = Inr b \<Longrightarrow>
   type = ''student'' \<or> type = ''professor'' \<or> type = ''department''"
  by (auto simp: validateData_def get_prop_def schemas_def
        split: option.splits if_splits lookup.splits)

text \<open>After a successful validation \<^verbatim>\<open>data.id\<close> is an own property and a string.\<close>

lemma validateData_id:
  assumes "validateData data type = Inr b"
  shows "map_of data ''id'' = Some (JStr (data_id data))"
proof -
  have "validateData data type = Inr True"
    using assms by (auto simp: validateData_def split: lookup.splits sum.splits)
  moreover have "type = ''student'' \<or> type = ''professor'' \<or> type = ''department''"
    using assms by (rule validateData_kind)
  ultimately have "\<exists>s. map_of data ''id'' = Some (JStr s)"
    by (auto simp: student_valid_iff professor_valid_iff department_valid_iff)
  then show ?thesis by (auto simp: data_id_def)
qed

section \<open>The student schema: \<open>major\<close> and \<open>course\<close>\<close>

lemma map_of_schemas_student:
  "map_of schemas ''student'' =
     Some \<lparr>required = [''id'', ''name'', ''email'', ''enrollmentYear'', ''major''],
          types = [(''id'', ''string''), (''name'', ''string''), (''email'', ''string''),
                   (''enrollmentYear'', ''number''), (''course'', ''string'')]\<rparr>"
  by (simp add: schemas_def)

lemma student_major_untyped:
  assumes "map_of data ''major'' \<noteq> None"
  shows "validateData (obj_set data ''major'' v) ''student'' = validateData data ''student''"
  using validateData_obj_set [OF map_of_schemas_student, of data "''major''" v] assms
  by simp

lemma student_major_missing:
  assumes "map_of data ''id'' \<noteq> None" and "map_of data ''name'' \<noteq> None"
    and "map_of data ''email'' \<noteq> None" and "map_of data ''enrollmentYear'' \<noteq> None"
    and "map_of data ''major'' = None"
  shows "validateData data ''student'' = Inl ''Missing required field: major''"
  using assms
  by (simp add: validateData_def get_prop_schemas_student in_op_own
        object_prototype_keys_def)

lemma map_of_obj_delete:
  "map_of (obj_delete data k') k = (if k = k' then None else map_of data k)"
  by (induction data) (auto simp: obj_delete_def)

lemma student_course_typed:
  assumes "validateData (obj_delete data ''course'') ''student'' = Inr True"
    and "map_of data ''course'' = Some c" and "typeof c \<noteq> ''string''"
  shows "validateData data ''student'' = Inl ''Invalid type for course: expected string''"
proof -
  from assms(1) obtain i n e y where
    "map_of data ''id'' = Some (JStr i)" "map_of data ''name'' = Some (JStr n)"
    "map_of data ''email'' = Some (JStr e)" "map_of data ''enrollmentYear'' = Some (JNum y)"
    "map_of data ''major'' \<noteq> None"
    unfolding student_valid_iff map_of_obj_delete by auto
  with assms(2,3) show ?thesis
    by (simp add: validateData_def get_prop_schemas_student in_op_own
          object_prototype_keys_def typeof_member_own)
qed

lemma student_schema_lists:
  "\<exists>sch. map_of schemas ''student'' = Some sch \<and>
         ''major'' \<in> set (required sch) \<and> map_of (types sch) ''major'' = None \<and>
         ''course'' \<notin> set (required sch) \<and> map_of (types sch) ''course'' = Some ''string''"
  by (simp add: schemas_def)

text \<open>
  Claim C8. A student record is valid exactly when \<open>id\<close>, \<open>name\<close> and \<open>email\<close> are
  strings, \<open>enrollmentYear\<close> is a number, \<open>major\<close> is present (with a value of any type)
  and \<open>course\<close> is absent or a string. So \<open>major\<close> is required and not type-checked:
  a record without it is rejected for the missing field, and a record that has it keeps
  its validation outcome under every change of its value; \<open>course\<close> is type-checked
  when present and not required. The required list holds \<open>major\<close> and not \<open>course\<close>, the
  type map holds \<open>course\<close> and not \<open>major\<close>.
\<close>

theorem student_major_course:
  "(validateData data ''student'' = Inr True \<longleftrightarrow>
      (\<exists>s. map_of data ''id'' = Some (JStr s)) \<and>
      (\<exists>s. map_of data ''name'' = Some (JStr s)) \<and>
      (\<exists>s. map_of data ''email'' = Some (JStr s)) \<and>
      (\<exists>n. map_of data ''enrollmentYear'' = Some (JNum n)) \<and>
      map_of data ''major'' \<noteq> None \<and>
      (case map_of data ''course'' of None \<Rightarrow> True | Some c \<Rightarrow> (\<exists>s. c = JStr s)))
   \<and> (map_of data ''id'' \<noteq> None \<and> map_of data ''name'' \<noteq> None \<and>
       map_of data ''email'' \<noteq> None \<and> map_of data ''enrollmentYear'' \<noteq> None \<and>
       map_of data ''major'' = None \<longrightarrow>
       validateData data ''student'' = Inl ''Missing required field: major'')
   \<and> (map_of data ''major'' \<noteq> None \<longrightarrow>
       validateData (obj_set data ''major'' v) ''student'' = validateData data ''student'')
   \<and> (validateData (obj_delete data ''course'') ''student'' = Inr True \<and>
       map_of data ''course'' = Some c \<and> typeof c \<noteq> ''string'' \<longrightarrow>
       validateData data ''student'' = Inl ''Invalid type for course: expected string'')
   \<and> (\<exists>sch. map_of schemas ''student'' = Some sch \<and>
          ''major'' \<in> set (required sch) \<and> map_of (types sch) ''major'' = None \<and>
          ''course'' \<notin> set (required sch) \<and> map_of (types sch) ''course'' = Some ''string'')"
  apply (intro conjI impI)
      apply (rule student_valid_iff)
     apply (rule student_major_missing; simp)
    apply (rule student_major_untyped; simp)
   apply (erule conjE)+
   apply (rule student_course_typed; assumption)
  apply (rule student_schema_lists)
  done

theorem student_major_course_witness:
  "validateData
     [(''id'', JStr ''std101''), (''name'', JStr ''John Doe''), (''email'', JStr ''john@srmist.edu.in''),
      (''enrollmentYear'', JNum 2024), (''major'', JNum 42)] ''student'' = Inr True
   \<and> validateData
       [(''id'', JStr ''std101''), (''name'', JStr ''John Doe''), (''email'', JStr ''john@srmist.edu.in''),
        (''enrollmentYear'', JNum 2024)] ''student'' = Inl ''Missing required field: major''
   \<and> validateData
       (obj_set [(''id'', JStr ''std101''), (''name'', JStr ''John Doe''),
                 (''email'', JStr ''john@srmist.edu.in''), (''enrollmentYear'', JNum 2024),
                 (''major'', JNum 42)] ''major'' JNull) ''student'' = Inr True"
proof -
  let ?S = "[(''id'', JStr ''std101''), (''name'', JStr ''John Doe''),
             (''email'', JStr ''john@srmist.edu.in''), (''enrollmentYear'', JNum 2024),
             (''major'', JNum 42)]"
  let ?T = "[(''id'', JStr ''std101''), (''name'', JStr ''John Doe''),
             (''email'', JStr ''john@srmist.edu.in''), (''enrollmentYear'', JNum 2024)]"
  note s = student_major_course [of ?S JNull]
  note t = student_major_course [of ?T]
  have valid: "validateData ?S ''student'' = Inr True"
    using s by simp
  have missing: "validateData ?T ''student'' = Inl ''Missing required field: major''"
    using t by simp
  have "validateData (obj_set ?S ''major'' JNull) ''student'' = validateData ?S ''student''"
    using s by simp
  with valid missing show ?thesis by simp
qed

section \<open>Failures and their causes\<close>



lemma str_includes_iff: "str_includes hay needle \<longleftrightarrow> (\<exists>p s. hay = p @ needle @ s)"
proof (induction hay)
  case Nil
  then show ?case by auto
next
  case (Cons c cs)
  show ?case
  proof
    assume "str_includes (c # cs) needle"
    then consider "prefix needle (c # cs)" | "str_includes cs needle" by auto
    then show "\<exists>p s. c # cs = p @ needle @ s"
    proof cases
      case 1
      then obtain s where "c # cs = needle @ s" by (auto simp: prefix_def)
      then have "c # cs = [] @ needle @ s" by simp
      then show ?thesis by blast
    next
      case 2
      with Cons.IH obtain p s where "cs = p @ needle @ s" by blast
      then have "c # cs = (c # p) @ needle @ s" by simp
      then show ?thesis by blast
    qed
  next
    assume "\<exists>p s. c # cs = p @ needle @ s"
    then obtain p s where eq: "c # cs = p @ needle @ s" by blast
    show "str_includes (c # cs) needle"
    proof (cases p)
      case Nil
      with eq have "prefix needle (c # cs)" by (simp add: prefix_def)
      then show ?thesis by simp
    next
      case (Cons a p')
      with eq have "cs = p' @ needle @ s" by simp
      with Cons.IH have "str_includes cs needle" by blast
      then show ?thesis by simp
    qed
  qed
qed









section \<open>Adding a record\<close>

lemma doc_member_update_same:
  "doc_member d k = Some c \<Longrightarrow> doc_member (doc_update d k c') k = Some c'"
  by (auto simp: doc_member_def doc_update_def split: if_splits)

lemma doc_member_update_other:
  "k' \<noteq> k \<Longrightarrow> doc_member (doc_update d k c') k' = doc_member d k'"
  by (auto simp: doc_member_def doc_update_def split: if_splits)

lemma validateData_doc_member:
  "validateData data type = Inr b \<Longrightarrow> doc_member doc (type @ ''s'') \<noteq> None"
  using validateData_kind [of data type b] by (auto simp: doc_member_def)

text \<open>
  Claim C5. Adding a valid record whose id is already a key of its kind's mapping fails,
  and the primary document read back afterwards is the one from before the call. When
  the backup file can be written, the error is the conflict error
  \<^verbatim>\<open>Failed to add <kind>: <kind> with ID <id> already exists\<close>.
\<close>

theorem add_duplicate_id:
  assumes "validateData data type = Inr True"
    and "primary st = Inr doc"
    and "doc_member doc (type @ ''s'') = Some coll"
    and "map_of coll (data_id data) = Some r"
  shows "(\<exists>m. snd (add st now type data) = Inl m)
       \<and> primary (fst (add st now type data)) = Inr doc
       \<and> (backup_fault st = None \<longrightarrow>
            snd (add st now type data) =
              Inl (''Failed to add '' @ type @ '': '' @ type @ '' with ID '' @ data_id data
                     @ '' already exists''))"
  using assms
  by (cases "backup_fault st")
     (simp_all add: add_def add_body_def createBackup_def readFile_def get_prop_def)

theorem add_duplicate_id_witness:
  "validateData cs101 ''department'' = Inr True
   \<and> primary sample_store = Inr sample_document
   \<and> map_of (departments sample_document) (data_id cs101) = Some cs101
   \<and> snd (add sample_store ''2024-05-01T10:00:00.000Z'' ''department'' cs101)
       = Inl ''Failed to add department: department with ID cs101 already exists''
   \<and> primary (fst (add sample_store ''2024-05-01T10:00:00.000Z'' ''department'' cs101))
       = Inr sample_document"
proof -
  have v: "validateData cs101 ''department'' = Inr True" by code_simp
  have p: "primary sample_store = Inr sample_document" by (simp add: sample_store_def)
  have c: "doc_member sample_document (''department'' @ ''s'') = Some (departments sample_document)"
    by (simp add: doc_member_def)
  have i: "data_id cs101 = ''cs101''" by (simp add: data_id_def cs101_def)
  have k: "map_of (departments sample_document) (data_id cs101) = Some cs101"
    by (simp add: i sample_document_def)
  have b: "backup_fault sample_store = None" by (simp add: sample_store_def)
  note t = add_duplicate_id [OF v p c k, of "''2024-05-01T10:00:00.000Z''"]
  from t b have "snd (add sample_store ''2024-05-01T10:00:00.000Z'' ''department'' cs101) =
              Inl (''Failed to add '' @ ''department'' @ '': '' @ ''department'' @ '' with ID ''
                     @ data_id cs101 @ '' already exists'')"
    by simp
  then have m: "snd (add sample_store ''2024-05-01T10:00:00.000Z'' ''department'' cs101)
       = Inl ''Failed to add department: department with ID cs101 already exists''"
    by (simp add: i)
  from t have "primary (fst (add sample_store ''2024-05-01T10:00:00.000Z'' ''department'' cs101))
       = Inr sample_document" by simp
  with v p k m show ?thesis by simp
qed

section \<open>Deleting a record\<close>

lemma hasProfessors_iff:
  "hasProfessors doc ident \<longleftrightarrow>
     (\<exists>prof \<in> set (obj_values (professors doc)). map_of prof ''department'' = Some (JStr ident))"
  by (auto simp: hasProfessors_def list_ex_iff strict_eq_def get_prop_def split: option.splits)

lemma delete_blocked:
  assumes "primary st = Inr doc" and "map_of (departments doc) ident = Some dept"
    and "hasProfessors doc ident"
  shows "delete st now ''department'' ident =
           (st, Inl ''Failed to delete department: Cannot delete department with assigned professors'')"
  using assms
  by (simp add: delete_def delete_body_def readFile_def doc_member_def get_prop_def)

lemma delete_done:
  assumes "primary st = Inr doc" and "doc_member doc (type @ ''s'') = Some coll"
    and "map_of coll ident = Some r"
    and "\<not> (type = ''department'' \<and> hasProfessors doc ident)"
    and "backup_fault st = None" and "write_fault st = None"
  shows "delete st now type ident =
           (st\<lparr>backups := put_file (backups st) (backup_name now) doc,
               primary := Inr (doc_update doc (type @ ''s'') (obj_delete coll ident))\<rparr>,
            Inr True)"
  using assms
  by (simp add: delete_def delete_body_def readFile_def get_prop_def createBackup_def
        writeFile_def)

text \<open>
  Claim C6. For a department that is stored under \<open>ident\<close>:
  when some stored professor has \<open>department\<close> equal to \<open>ident\<close>, deleting the department
  fails with the dependency error and changes nothing, so the department is still in the
  document; when no stored professor has, and the backup and the primary file can be
  written, the delete returns true and the document read back has no department under
  \<open>ident\<close>, every other department, the professors and the students being as before.
\<close>

theorem delete_department_dependency:
  assumes "primary st = Inr doc" and "map_of (departments doc) ident = Some dept"
  shows "((\<exists>prof \<in> set (obj_values (professors doc)).
             map_of prof ''department'' = Some (JStr ident)) \<longrightarrow>
          delete st now ''department'' ident =
            (st, Inl ''Failed to delete department: Cannot delete department with assigned professors''))
       \<and> ((\<forall>prof \<in> set (obj_values (professors doc)).
             map_of prof ''department'' \<noteq> Some (JStr ident)) \<and>
           backup_fault st = None \<and> write_fault st = None \<longrightarrow>
          (\<exists>doc'. delete st now ''department'' ident =
                    (st\<lparr>backups := put_file (backups st) (backup_name now) doc,
                        primary := Inr doc'\<rparr>, Inr True)
                 \<and> map_of (departments doc') ident = None
                 \<and> (\<forall>k. k \<noteq> ident \<longrightarrow> map_of (departments doc') k = map_of (departments doc) k)
                 \<and> professors doc' = professors doc \<and> students doc' = students doc))"
proof (intro conjI impI)
  assume "\<exists>prof \<in> set (obj_values (professors doc)). map_of prof ''department'' = Some (JStr ident)"
  then have "hasProfessors doc ident" by (simp add: hasProfessors_iff)
  with assms show "delete st now ''department'' ident =
            (st, Inl ''Failed to delete department: Cannot delete department with assigned professors'')"
    by (rule delete_blocked)
next
  assume a: "(\<forall>prof \<in> set (obj_values (professors doc)).
             map_of prof ''department'' \<noteq> Some (JStr ident)) \<and>
           backup_fault st = None \<and> write_fault st = None"
  then have free: "\<not> (''department'' = ''department'' \<and> hasProfessors doc ident)"
    by (simp add: hasProfessors_iff)
  have member: "doc_member doc (''department'' @ ''s'') = Some (departments doc)"
    by (simp add: doc_member_def)
  let ?doc' = "doc_update doc (''department'' @ ''s'') (obj_delete (departments doc) ident)"
  have "delete st now ''department'' ident =
           (st\<lparr>backups := put_file (backups st) (backup_name now) doc, primary := Inr ?doc'\<rparr>,
            Inr True)"
    using delete_done [OF assms(1) member assms(2) free] a by simp
  moreover have "map_of (departments ?doc') ident = None"
    by (simp add: doc_update_def map_of_obj_delete)
  moreover have "\<forall>k. k \<noteq> ident \<longrightarrow> map_of (departments ?doc') k = map_of (departments doc) k"
    by (simp add: doc_update_def map_of_obj_delete)
  moreover have "professors ?doc' = professors doc" "students ?doc' = students doc"
    by (simp_all add: doc_update_def)
  ultimately show "\<exists>doc'. delete st now ''department'' ident =
                    (st\<lparr>backups := put_file (backups st) (backup_name now) doc,
                        primary := Inr doc'\<rparr>, Inr True)
                 \<and> map_of (departments doc') ident = None
                 \<and> (\<forall>k. k \<noteq> ident \<longrightarrow> map_of (departments doc') k = map_of (departments doc) k)
                 \<and> professors doc' = professors doc \<and> students doc' = students doc"
    by (intro exI [of _ ?doc'] conjI)
qed

theorem delete_department_dependency_witness:
  "delete sample_store ''2024-05-01T10:00:00.000Z'' ''department'' ''cs101'' =
     (sample_store,
      Inl ''Failed to delete department: Cannot delete department with assigned professors'')
   \<and> map_of (departments sample_document) ''cs101'' = Some cs101
   \<and> (\<exists>doc'. delete (sample_store\<lparr>primary := Inr (sample_document\<lparr>professors := []\<rparr>)\<rparr>)
                 ''2024-05-01T10:00:00.000Z'' ''department'' ''cs101'' =
               (sample_store\<lparr>primary := Inr (sample_document\<lparr>professors := []\<rparr>)\<rparr>
                  \<lparr>backups :=
                     put_file (backups (sample_store\<lparr>primary := Inr (sample_document\<lparr>professors := []\<rparr>)\<rparr>))
                       (backup_name ''2024-05-01T10:00:00.000Z'') (sample_document\<lparr>professors := []\<rparr>),
                   primary := Inr doc'\<rparr>, Inr True)
            \<and> map_of (departments doc') ''cs101'' = None)"
proof -
  have p: "primary sample_store = Inr sample_document"
    by (simp add: sample_store_def)
  have d: "map_of (departments sample_document) ''cs101'' = Some cs101"
    by (simp add: sample_document_def)
  have r: "\<exists>prof \<in> set (obj_values (professors sample_document)).
             map_of prof ''department'' = Some (JStr ''cs101'')"
    by (simp add: sample_document_def obj_values_def prof123_def)
  note blocked = delete_department_dependency
      [OF p d, of "''2024-05-01T10:00:00.000Z''", THEN conjunct1, THEN mp, OF r]
  let ?doc = "sample_document\<lparr>professors := []\<rparr>"
  let ?st = "sample_store\<lparr>primary := Inr ?doc\<rparr>"
  have p': "primary ?st = Inr ?doc" by simp
  have d': "map_of (departments ?doc) ''cs101'' = Some cs101"
    by (simp add: sample_document_def)
  have free: "(\<forall>prof \<in> set (obj_values (professors ?doc)).
             map_of prof ''department'' \<noteq> Some (JStr ''cs101'')) \<and>
           backup_fault ?st = None \<and> write_fault ?st = None"
    by (simp add: obj_values_def sample_store_def)
  note removed = delete_department_dependency
      [OF p' d', of "''2024-05-01T10:00:00.000Z''", THEN conjunct2, THEN mp, OF free]
  from removed obtain doc' where
    "delete ?st ''2024-05-01T10:00:00.000Z'' ''department'' ''cs101'' =
       (?st\<lparr>backups := put_file (backups ?st) (backup_name ''2024-05-01T10:00:00.000Z'') ?doc,
            primary := Inr doc'\<rparr>, Inr True)"
    "map_of (departments doc') ''cs101'' = None"
    by (elim exE conjE)
  then have "\<exists>doc'. delete ?st ''2024-05-01T10:00:00.000Z'' ''department'' ''cs101'' =
       (?st\<lparr>backups := put_file (backups ?st) (backup_name ''2024-05-01T10:00:00.000Z'') ?doc,
            primary := Inr doc'\<rparr>, Inr True)
      \<and> map_of (departments doc') ''cs101'' = None"
    by (intro exI [of _ doc'] conjI)
  with blocked d show ?thesis by (intro conjI)
qed

section \<open>Updating a record\<close>

lemma map_of_foldl_obj_set:
  "map_of (foldl (\<lambda>m (k, v). obj_set m k v) acc xs) = map_of acc ++ map_of (rev xs)"
proof (induction xs arbitrary: acc)
  case Nil
  then show ?case by simp
next
  case (Cons x xs)
  obtain k v where x: "x = (k, v)" by (cases x)
  have "map_of (foldl (\<lambda>m (k, v). obj_set m k v) acc (x # xs)) =
        (map_of acc)(k \<mapsto> v) ++ map_of (rev xs)"
    by (simp add: x Cons.IH map_of_obj_set fun_upd_def)
  also have "\<dots> = map_of acc ++ map_of (rev (x # xs))"
    by (simp add: x fun_eq_iff map_add_def split: option.splits)
  finally show ?case .
qed

lemma map_of_rev_distinct:
  "distinct (map fst xs) \<Longrightarrow> map_of (rev xs) = map_of xs"
  by (induction xs) (auto simp: fun_eq_iff map_add_def dom_map_of_conv_image_fst
        split: option.splits dest: map_of_SomeD intro: rev_image_eqI)

lemma map_of_spread:
  assumes "distinct (map fst a)" and "distinct (map fst b)"
  shows "map_of (spread a b) = map_of a ++ map_of b"
  by (simp add: spread_def map_of_foldl_obj_set rev_map [symmetric]
        map_of_rev_distinct [OF assms(1)] map_of_rev_distinct [OF assms(2)])

lemma map_of_obj_assign_own:
  "map_of m k \<noteq> None \<Longrightarrow> map_of (obj_assign m k v) = (map_of m)(k \<mapsto> v)"
  by (auto simp: obj_assign_def map_of_obj_set)

lemma update_done:
  assumes "primary st = Inr doc" and "doc_member doc (type @ ''s'') = Some coll"
    and "map_of coll ident = Some existing"
    and "validateData (spread existing updates) type = Inr True"
    and "backup_fault st = None" and "write_fault st = None"
  shows "update st now type ident updates =
           (st\<lparr>backups := put_file (backups st) (backup_name now) doc,
               primary := Inr (doc_update doc (type @ ''s'')
                                 (obj_assign coll ident (spread existing updates)))\<rparr>,
            Inr (spread existing updates))"
  using assms
  by (simp add: update_def update_body_def readFile_def get_prop_def createBackup_def
        writeFile_def Let_def)

text \<open>
  Claim C7. For a record stored under \<open>ident\<close> in the mapping of its kind, when the merged
  record passes validation and the backup and the primary file can be written,
  \<^verbatim>\<open>update\<close> returns the merged record and stores it under \<open>ident\<close>, the other
  keys of the mapping keeping their records. The merged record has, for every field
  name, the value that \<open>updates\<close> gives it if \<open>updates\<close> has the field, and the value of
  the existing record otherwise. No schema is consulted for the merge: a field of
  \<open>updates\<close> that no schema lists is merged like any other. (A JavaScript object has each
  of its keys once, which is what the two \<open>distinct\<close> premises say.)
\<close>

theorem update_merges_fields:
  assumes "primary st = Inr doc" and "doc_member doc (type @ ''s'') = Some coll"
    and "map_of coll ident = Some existing"
    and "distinct (map fst existing)" and "distinct (map fst updates)"
    and "validateData (spread existing updates) type = Inr True"
    and "backup_fault st = None" and "write_fault st = None"
  shows "\<exists>merged doc' coll'.
           update st now type ident updates =
             (st\<lparr>backups := put_file (backups st) (backup_name now) doc,
                 primary := Inr doc'\<rparr>, Inr merged)
           \<and> (\<forall>f. map_of merged f =
                  (case map_of updates f of Some v \<Rightarrow> Some v | None \<Rightarrow> map_of existing f))
           \<and> doc_member doc' (type @ ''s'') = Some coll'
           \<and> map_of coll' ident = Some merged
           \<and> (\<forall>k. k \<noteq> ident \<longrightarrow> map_of coll' k = map_of coll k)"
proof -
  let ?merged = "spread existing updates"
  let ?coll' = "obj_assign coll ident ?merged"
  let ?doc' = "doc_update doc (type @ ''s'') ?coll'"
  have "update st now type ident updates =
          (st\<lparr>backups := put_file (backups st) (backup_name now) doc, primary := Inr ?doc'\<rparr>,
           Inr ?merged)"
    using assms(1,2,3,6,7,8) by (rule update_done)
  moreover have "\<forall>f. map_of ?merged f =
                  (case map_of updates f of Some v \<Rightarrow> Some v | None \<Rightarrow> map_of existing f)"
    by (simp add: map_of_spread [OF assms(4,5)] map_add_def)
  moreover have "doc_member ?doc' (type @ ''s'') = Some ?coll'"
    using assms(2) by (rule doc_member_update_same)
  moreover have "map_of ?coll' ident = Some ?merged"
    using assms(3) by (simp add: map_of_obj_assign_own)
  moreover have "\<forall>k. k \<noteq> ident \<longrightarrow> map_of ?coll' k = map_of coll k"
    using assms(3) by (simp add: map_of_obj_assign_own)
  ultimately show ?thesis
    by (intro exI [of _ ?merged] exI [of _ ?doc'] exI [of _ ?coll'] conjI)
qed

theorem update_merges_fields_witness:
  "\<exists>merged.
     snd (update sample_store ''2024-05-01T10:00:00.000Z'' ''department'' ''cs101''
            [(''budget'', JNum 1200000), (''notes'', JStr ''new wing'')]) = Inr merged
     \<and> map_of merged ''budget'' = Some (JNum 1200000)
     \<and> map_of merged ''notes'' = Some (JStr ''new wing'')
     \<and> map_of merged ''id'' = Some (JStr ''cs101'')
     \<and> map_of merged ''name'' = Some (JStr ''Computer Science'')
     \<and> map_of merged ''building'' = Some (JStr ''Tech Park'')"
proof -
  let ?u = "[(''budget'', JNum 1200000), (''notes'', JStr ''new wing'')]"
  have p: "primary sample_store = Inr sample_document"
    by (simp add: sample_store_def)
  have c: "doc_member sample_document (''department'' @ ''s'') = Some (departments sample_document)"
    by (simp add: doc_member_def)
  have k: "map_of (departments sample_document) ''cs101'' = Some cs101"
    by (simp add: sample_document_def)
  have d1: "distinct (map fst cs101)" by (simp add: cs101_def)
  have d2: "distinct (map fst ?u)" by simp
  have v: "validateData (spread cs101 ?u) ''department'' = Inr True" by code_simp
  have b: "backup_fault sample_store = None" and w: "write_fault sample_store = None"
    by (simp_all add: sample_store_def)
  from update_merges_fields [OF p c k d1 d2 v b w, of "''2024-05-01T10:00:00.000Z''"]
  obtain merged doc' where
    r: "update sample_store ''2024-05-01T10:00:00.000Z'' ''department'' ''cs101'' ?u =
         (sample_store\<lparr>backups := put_file (backups sample_store)
                                      (backup_name ''2024-05-01T10:00:00.000Z'') sample_document,
                        primary := Inr doc'\<rparr>, Inr merged)"
    and m: "\<forall>f. map_of merged f =
              (case map_of ?u f of Some v \<Rightarrow> Some v | None \<Rightarrow> map_of cs101 f)"
    by (elim exE conjE)
  from r have "snd (update sample_store ''2024-05-01T10:00:00.000Z'' ''department'' ''cs101'' ?u)
      = Inr merged" by simp
  moreover from m have "map_of merged ''budget'' = Some (JNum 1200000)" by simp
  moreover from m have "map_of merged ''notes'' = Some (JStr ''new wing'')" by simp
  moreover from m have "map_of merged ''id'' = Some (JStr ''cs101'')" by (simp add: cs101_def)
  moreover from m have "map_of merged ''name'' = Some (JStr ''Computer Science'')"
    by (simp add: cs101_def)
  moreover from m have "map_of merged ''building'' = Some (JStr ''Tech Park'')"
    by (simp add: cs101_def)
  ultimately show ?thesis by (intro exI [of _ merged] conjI)
qed

section \<open>Searching\<close>

lemma every_criterion_spec:
  "every_criterion criteria item = Inr b \<Longrightarrow> b = spec_matches item criteria"
proof (induction criteria item arbitrary: b rule: every_criterion.induct)
  case (1 item)
  then show ?case by (simp add: spec_matches_def)
next
  case (2 key "value" rest item)
  then show ?case
    by (auto simp: spec_matches_def spec_criterion_def get_prop_def strict_eq_def
          split: jsval.splits option.splits if_splits lookup.splits)
qed

lemma filter_items_spec:
  "filter_items items criteria = Inr found \<Longrightarrow>
   found = filter (\<lambda>item. spec_matches item criteria) items"
proof (induction items arbitrary: found)
  case Nil
  then show ?case by simp
next
  case (Cons item items)
  then show ?case
    by (auto split: sum.splits if_splits dest: every_criterion_spec)
qed

lemma search_spec:
  assumes "search st type criteria = Inr found"
    and "primary st = Inr doc" and "doc_member doc (type @ ''s'') = Some coll"
  shows "found = filter (\<lambda>item. spec_matches item criteria) (obj_values coll)"
  using assms
  by (auto simp: search_def search_body_def readFile_def split: sum.splits
        dest: filter_items_spec)

text \<open>
  Claim C3. The two students \<open>std101\<close> and \<open>std102\<close> pass validation (\<open>major\<close> is required
  and not type-checked), and \<open>std101\<close> matches the criteria \<^verbatim>\<open>{major: 'computer'}\<close> by the
  rule of the specification. The search of the store that holds both does not return
  \<open>std101\<close>: it fails, because the \<open>major\<close> of \<open>std102\<close> is a number, which has no
  \<^verbatim>\<open>toLowerCase\<close>. (When a search returns, it returns the records that match by the
  rule of the specification: lemma \<open>search_spec\<close>.)
\<close>

theorem search_textual_criterion_on_number:
  "validateData std101 ''student'' = Inr True
   \<and> validateData std102 ''student'' = Inr True
   \<and> spec_matches std101 [(''major'', JStr ''computer'')]
   \<and> search student_store ''student'' [(''major'', JStr ''computer'')]
       = Inl ''Search failed: item[key]?.toLowerCase is not a function''"
  by code_simp

section \<open>Identifiers and keys\<close>

text \<open>\<^verbatim>\<open>add\<close> stores a record under its \<open>id\<close>, and \<^verbatim>\<open>delete\<close> removes a key with its
  record: the two keep the invariant.\<close>

lemma keyed_by_id_obj_replace:
  "keyed_by_id coll \<Longrightarrow> map_of r ''id'' = Some (JStr k) \<Longrightarrow> keyed_by_id (obj_replace k r coll)"
  by (induction coll) (auto simp: keyed_by_id_def)

lemma keyed_by_id_obj_insert_index:
  "keyed_by_id coll \<Longrightarrow> map_of r ''id'' = Some (JStr k) \<Longrightarrow>
   keyed_by_id (obj_insert_index i k r coll)"
  by (induction coll) (auto simp: keyed_by_id_def split: option.splits)

lemma keyed_by_id_obj_assign:
  "keyed_by_id coll \<Longrightarrow> map_of r ''id'' = Some (JStr k) \<Longrightarrow> keyed_by_id (obj_assign coll k r)"
  by (auto simp: obj_assign_def obj_set_def keyed_by_id_obj_replace
        keyed_by_id_obj_insert_index split: option.splits)
     (simp_all add: keyed_by_id_def)

lemma keyed_by_id_obj_delete: "keyed_by_id coll \<Longrightarrow> keyed_by_id (obj_delete coll k)"
  by (induction coll) (auto simp: keyed_by_id_def obj_delete_def)

lemma ids_are_keys_doc_update:
  assumes "ids_are_keys doc" and "keyed_by_id coll"
  shows "ids_are_keys (doc_update doc k coll)"
  using assms by (auto simp: ids_are_keys_def doc_update_def)

lemma ids_are_keys_doc_member:
  "ids_are_keys doc \<Longrightarrow> doc_member doc k = Some coll \<Longrightarrow> keyed_by_id coll"
  by (auto simp: ids_are_keys_def doc_member_def split: if_splits)

lemma add_keeps_ids_as_keys:
  assumes "primary st = Inr doc" and "ids_are_keys doc"
    and "add st now type data = (st', Inr r)"
  shows "\<exists>doc'. primary st' = Inr doc' \<and> ids_are_keys doc'"
proof -
  from assms(3) obtain b where v: "validateData data type = Inr b"
    by (auto simp: add_def add_body_def split: sum.splits prod.splits)
  note i = validateData_id [OF v]
  from assms(3) v obtain coll where c: "doc_member doc (type @ ''s'') = Some coll"
    and st': "primary st' =
                Inr (doc_update doc (type @ ''s'') (obj_assign coll (data_id data) data))"
    using assms(1)
    by (auto simp: add_def add_body_def createBackup_def readFile_def writeFile_def
          split: sum.splits option.splits if_splits)
  have "keyed_by_id (obj_assign coll (data_id data) data)"
    using ids_are_keys_doc_member [OF assms(2) c] i by (rule keyed_by_id_obj_assign)
  with assms(2)
  have "ids_are_keys (doc_update doc (type @ ''s'') (obj_assign coll (data_id data) data))"
    by (rule ids_are_keys_doc_update)
  with st' show ?thesis by simp
qed

lemma delete_keeps_ids_as_keys:
  assumes "primary st = Inr doc" and "ids_are_keys doc"
    and "delete st now type ident = (st', Inr r)"
  shows "\<exists>doc'. primary st' = Inr doc' \<and> ids_are_keys doc'"
proof -
  from assms(1,3) obtain coll where c: "doc_member doc (type @ ''s'') = Some coll"
    and st': "primary st' = Inr (doc_update doc (type @ ''s'') (obj_delete coll ident))"
    by (auto simp: delete_def delete_body_def createBackup_def readFile_def writeFile_def
          split: sum.splits option.splits if_splits)
  have "keyed_by_id (obj_delete coll ident)"
    using ids_are_keys_doc_member [OF assms(2) c] by (rule keyed_by_id_obj_delete)
  with assms(2) have "ids_are_keys (doc_update doc (type @ ''s'') (obj_delete coll ident))"
    by (rule ids_are_keys_doc_update)
  with st' show ?thesis by simp
qed

text \<open>
  Claim C10. In the sample document every record is stored under its \<open>id\<close>. Updating the
  department \<open>cs101\<close> with \<^verbatim>\<open>{id: 'cs999'}\<close> succeeds and leaves, under the key \<open>cs101\<close>,
  a record whose \<open>id\<close> is \<open>cs999\<close>: the invariant does not hold afterwards.
\<close>

theorem update_changes_id:
  "ids_are_keys sample_document
   \<and> update sample_store ''2024-05-01T10:00:00.000Z'' ''department'' ''cs101''
        [(''id'', JStr ''cs999'')]
      = (sample_store
           \<lparr>backups := [(''backup_2024-05-01T10-00-00-000Z.json'', sample_document)],
            primary := Inr (sample_document
               \<lparr>departments :=
                  [(''cs101'', [(''id'', JStr ''cs999''), (''name'', JStr ''Computer Science''),
                               (''building'', JStr ''Tech Park''), (''budget'', JNum 1000000)])]\<rparr>)\<rparr>,
         Inr [(''id'', JStr ''cs999''), (''name'', JStr ''Computer Science''),
              (''building'', JStr ''Tech Park''), (''budget'', JNum 1000000)])
   \<and> \<not> ids_are_keys (sample_document
               \<lparr>departments :=
                  [(''cs101'', [(''id'', JStr ''cs999''), (''name'', JStr ''Computer Science''),
                               (''building'', JStr ''Tech Park''), (''budget'', JNum 1000000)])]\<rparr>)"
  by code_simp

section \<open>Adding a record and searching for it\<close>











section \<open>Backup files\<close>

lemma put_file_fresh:
  "name \<notin> fst ` set files \<Longrightarrow> put_file files name d = files @ [(name, d)]"
  by (induction files) auto

lemma validateData_True: "validateData data type = Inr b \<Longrightarrow> b"
  by (auto simp: validateData_def split: lookup.splits sum.splits)

lemma perform_add:
  assumes "primary s = Inr d" and "backup_fault s = None" and "write_fault s = None"
    and "perform s now (Add type data) = (s', ok)"
  shows "backups s' = (if validateData data type = Inr True
                       then put_file (backups s) (backup_name now) d else backups s)
       \<and> (ok \<longrightarrow> validateData data type = Inr True)
       \<and> backup_fault s' = None \<and> write_fault s' = None \<and> (\<exists>d'. primary s' = Inr d')"
proof (cases "validateData data type")
  case (Inl e)
  with assms show ?thesis by (auto simp: add_def add_body_def)
next
  case (Inr b)
  then have b: "validateData data type = Inr True"
    using validateData_True [OF Inr] by simp
  have "(doc_member d (type @ ''s'') = None) = False"
    using validateData_doc_member [OF Inr] by simp
  with assms b show ?thesis
    by (auto simp: add_def add_body_def createBackup_def readFile_def writeFile_def
          split: option.splits if_splits)
qed

lemma perform_update:
  assumes "primary s = Inr d" and "backup_fault s = None" and "write_fault s = None"
    and "perform s now (Update type ident updates) = (s', ok)"
  shows "backups s' = (if ok then put_file (backups s) (backup_name now) d else backups s)
       \<and> backup_fault s' = None \<and> write_fault s' = None \<and> (\<exists>d'. primary s' = Inr d')"
  using assms
  by (auto simp: update_def update_body_def createBackup_def readFile_def writeFile_def Let_def
        split: option.splits if_splits sum.splits)

lemma perform_delete:
  assumes "primary s = Inr d" and "backup_fault s = None" and "write_fault s = None"
    and "perform s now (Delete type ident) = (s', ok)"
  shows "backups s' = (if ok then put_file (backups s) (backup_name now) d else backups s)
       \<and> backup_fault s' = None \<and> write_fault s' = None \<and> (\<exists>d'. primary s' = Inr d')"
  using assms
  by (auto simp: delete_def delete_body_def createBackup_def readFile_def writeFile_def
        split: option.splits if_splits sum.splits)

lemma perform_step:
  assumes "primary s = Inr d" and "backup_fault s = None" and "write_fault s = None"
    and "perform s now c = (s', ok)"
  shows "backups s' = (if backed_up c ok
                       then put_file (backups s) (backup_name now) d else backups s)
       \<and> backup_fault s' = None \<and> write_fault s' = None \<and> (\<exists>d'. primary s' = Inr d')"
proof (cases c)
  case (Add type data)
  with perform_add [OF assms(1-3), of now type data s' ok] assms(4) show ?thesis
    by (auto simp: backed_up_def)
next
  case (Update type ident updates)
  with perform_update [OF assms(1-3), of now type ident updates s' ok] assms(4) show ?thesis
    by (auto simp: backed_up_def)
next
  case (Delete type ident)
  with perform_delete [OF assms(1-3), of now type ident s' ok] assms(4) show ?thesis
    by (auto simp: backed_up_def)
next
  case (Search type criteria)
  with assms show ?thesis by (auto simp: backed_up_def)
qed

lemma run_backups:
  assumes "primary st = Inr doc" and "backup_fault st = None" and "write_fault st = None"
    and "distinct (map fst (backups st) @ map (\<lambda>x. backup_name (fst x)) calls)"
    and "run st calls = (st', oks)"
  shows "length oks = length calls
       \<and> length (backups st') =
           length (backups st) + length (filter (\<lambda>(x, ok). backed_up (snd x) ok) (zip calls oks))"
  using assms
proof (induction calls arbitrary: st doc oks)
  case Nil
  then show ?case by simp
next
  case (Cons x calls)
  obtain now c where x: "x = (now, c)" by (cases x)
  obtain st1 ok where p: "perform st now c = (st1, ok)" by (cases "perform st now c")
  obtain st2 oks' where r: "run st1 calls = (st2, oks')" by (cases "run st1 calls")
  from Cons.prems(5) have fin: "st' = st2" "oks = ok # oks'"
    by (simp_all add: x p r)
  note step = perform_step [OF Cons.prems(1-3) p]
  from step obtain d1 where d1: "primary st1 = Inr d1" by blast
  have fresh: "backup_name now \<notin> fst ` set (backups st)"
    using Cons.prems(4) by (auto simp: x)
  have b1: "backups st1 = (if backed_up c ok
                          then backups st @ [(backup_name now, doc)] else backups st)"
    using step by (simp add: put_file_fresh [OF fresh])
  have dist: "distinct (map fst (backups st1) @ map (\<lambda>x. backup_name (fst x)) calls)"
    using Cons.prems(4) by (auto simp: x b1)
  from r fin have r': "run st1 calls = (st', oks')" by simp
  from Cons.IH [OF d1 _ _ dist r'] step
  have ih: "length oks' = length calls"
    "length (backups st') =
       length (backups st1) + length (filter (\<lambda>(x, ok). backed_up (snd x) ok) (zip calls oks'))"
    by simp_all
  from ih show ?case
    by (simp add: fin x b1)
qed

lemma rejected_valid_add_failed: "rejected_valid_add c ok \<Longrightarrow> \<not> ok"
  by (cases c) auto

lemma count_backed_up:
  "length (filter (\<lambda>(x, ok). backed_up (snd x) ok) zs) =
     length (filter (\<lambda>(x, ok). mutating (snd x) \<and> ok) zs)
     + length (filter (\<lambda>(x, ok). rejected_valid_add (snd x) ok) zs)"
  by (induction zs) (auto simp: backed_up_def dest: rejected_valid_add_failed)

text \<open>
  Claim C1, as amended. On a storage that can be read and written, and with backup file
  names (one per clock reading) that are pairwise distinct and new to the backup
  directory: after a sequence of public calls, the number of backup files has grown by
  the number of mutating calls that succeeded plus the number of \<^verbatim>\<open>add\<close> calls that
  failed although their record is valid (the duplicate id is found after the backup is
  written). Each call adds at most one file: a mutating call that succeeds, and an
  \<^verbatim>\<open>add\<close> of a valid record that fails, add the file named after the clock reading,
  holding the document as it was before the call; every other call (a search, a failed
  update or delete, an \<^verbatim>\<open>add\<close> that fails validation) adds none.
\<close>

theorem backup_files:
  assumes "primary st = Inr doc" and "backup_fault st = None" and "write_fault st = None"
    and "distinct (map fst (backups st) @ map (\<lambda>x. backup_name (fst x)) calls)"
    and "run st calls = (st', oks)"
  shows "length (backups st') =
           length (backups st)
           + length (filter (\<lambda>(x, ok). mutating (snd x) \<and> ok) (zip calls oks))
           + length (filter (\<lambda>(x, ok). rejected_valid_add (snd x) ok) (zip calls oks))
       \<and> (\<forall>now c rest. calls = (now, c) # rest \<longrightarrow>
            backups (fst (perform st now c)) =
              (if (mutating c \<and> snd (perform st now c))
                  \<or> rejected_valid_add c (snd (perform st now c))
               then backups st @ [(backup_name now, doc)] else backups st))"
proof -
  from run_backups [OF assms] have count: "length (backups st') =
           length (backups st)
           + length (filter (\<lambda>(x, ok). mutating (snd x) \<and> ok) (zip calls oks))
           + length (filter (\<lambda>(x, ok). rejected_valid_add (snd x) ok) (zip calls oks))"
    by (simp add: count_backed_up)
  have first: "backups (fst (perform st now c)) =
              (if (mutating c \<and> snd (perform st now c))
                  \<or> rejected_valid_add c (snd (perform st now c))
               then backups st @ [(backup_name now, doc)] else backups st)"
    if "calls = (now, c) # rest" for now c rest
  proof -
    have fresh: "backup_name now \<notin> fst ` set (backups st)"
      using assms(4) that by auto
    have "perform st now c = (fst (perform st now c), snd (perform st now c))" by simp
    from perform_step [OF assms(1-3) this] show ?thesis
      by (simp add: put_file_fresh [OF fresh] backed_up_def)
  qed
  from count first show ?thesis by blast
qed

theorem backup_files_witness:
  "snd (run sample_store sample_calls) = [True, False, False, True, True]
   \<and> length (backups sample_store) = 0
   \<and> length (backups (fst (run sample_store sample_calls))) = 3"
proof -
  have p: "primary sample_store = Inr sample_document"
    and b: "backup_fault sample_store = None" and w: "write_fault sample_store = None"
    and e: "backups sample_store = []"
    by (simp_all add: sample_store_def)
  have d: "distinct (map fst (backups sample_store)
                     @ map (\<lambda>x. backup_name (fst x)) sample_calls)"
    by code_simp
  have oks: "snd (run sample_store sample_calls) = [True, False, False, True, True]"
    by code_simp
  have r: "run sample_store sample_calls =
             (fst (run sample_store sample_calls), [True, False, False, True, True])"
    using oks by (simp add: prod_eq_iff)
  have v: "validateData cs101 ''department'' = Inr True" by code_simp
  from backup_files [OF p b w d r, THEN conjunct1]
  have "length (backups (fst (run sample_store sample_calls))) = 3"
    by (simp add: e sample_calls_def v)
  with oks e show ?thesis by simp
qed

text \<open>
  Claim C1 as stated fails: a failed call can leave a backup file. Adding the valid
  department \<open>cs101\<close> to the sample store, which holds it already, fails, and the backup
  directory, empty before, then holds one file; no mutating call has succeeded.
\<close>

theorem backup_files_counterexample:
  "validateData cs101 ''department'' = Inr True
   \<and> run sample_store [(''2024-05-01T10:00:00.000Z'', Add ''department'' cs101)]
      = (sample_store
           \<lparr>backups := [(''backup_2024-05-01T10-00-00-000Z.json'', sample_document)]\<rparr>,
         [False])
   \<and> backups sample_store = []"
  by code_simp

end
